theory Spec2Isabelle
  imports Main
begin

section \<open>The solver's sorts and the annotation nodes of the front-end\<close>

text \<open>
  The logical sorts that \<^verbatim>\<open>deal/_solver/_annotations.py\<close> builds through z3:
  \<^verbatim>\<open>z3.BoolSort()\<close>, \<^verbatim>\<open>z3.IntSort()\<close>, \<^verbatim>\<open>z3.StringSort()\<close>, \<^verbatim>\<open>z3.SeqSort(s)\<close>,
  \<^verbatim>\<open>z3.SetSort(s)\<close>, and the sort of \<^verbatim>\<open>float\<close>.
\<close>

datatype z3_sort = BoolSort | IntSort | RealSort | StringSort
  | SeqSort z3_sort | SetSort z3_sort

text \<open>
  Modelled from the spec: \<^verbatim>\<open>FloatSort.sort\<close> lives in \<^verbatim>\<open>deal/_solver/_sorts.py\<close>, which is
  not among the sources. The specification maps the primitive name \<^verbatim>\<open>float\<close> to the real
  sort, as the table \<^verbatim>\<open>SORTS\<close> of \<^verbatim>\<open>_theorem.py\<close> does with \<^verbatim>\<open>z3.RealSort\<close>.
\<close>

definition FloatSort_sort :: z3_sort where
  "FloatSort_sort = RealSort"

text \<open>
  The astroid nodes an annotation is made of. \<^verbatim>\<open>Subscript v sl\<close> has the outer expression
  \<^verbatim>\<open>value\<close> and the \<^verbatim>\<open>slice\<close>; the slice of \<^verbatim>\<open>List[int]\<close> is \<^verbatim>\<open>Index (Name int)\<close>. The value
  of a \<^verbatim>\<open>Const\<close> is a Python constant, of which only \<^verbatim>\<open>str\<close> is looked at.
\<close>

datatype const_value = VStr string | VInt int | VBool bool | VNone

datatype node =
    Index node
  | Name string
  | Const const_value
  | Subscript node node
  | Attribute node string
  | Tuple "node list"

text \<open>
  The exceptions, each with the arguments it is raised with. \<^verbatim>\<open>AttributeError\<close> is what
  Python raises for an attribute of \<^verbatim>\<open>None\<close>; \<^verbatim>\<open>OtherError\<close> stands for every other class.
\<close>

datatype exc =
    UnsupportedError "string list"
  | ProveError "string list"
  | RuntimeError "string list"
  | KeyError "string list"
  | AttributeError "string list"
  | OtherError string "string list"

text \<open>
  The collaborators of the solver that are not among the sources, taken as parameters:
  the symbol resolution of \<^verbatim>\<open>deal/linter/_extractors/common.py\<close> (\<^verbatim>\<open>infer\<close>,
  \<^verbatim>\<open>get_full_name\<close>, \<^verbatim>\<open>get_name\<close>), astroid's \<^verbatim>\<open>as_string\<close>, the statement and
  contract evaluators, and the solver's \<^verbatim>\<open>check\<close> and \<^verbatim>\<open>model\<close>. They are declared further
  down, once the types they work on are there; the resolution comes first.
  \<^verbatim>\<open>'d\<close> is the type of the definitions that \<^verbatim>\<open>infer\<close> returns. \<^verbatim>\<open>get_name\<close> returns
  \<^verbatim>\<open>None\<close> for an expression that has no name.
\<close>

record 'd resolution =
  infer :: "node \<Rightarrow> 'd list"
  get_full_name :: "'d \<Rightarrow> string \<times> string"
  get_name :: "node \<Rightarrow> string option"

subsection \<open>\<^verbatim>\<open>str.lower\<close>\<close>

text \<open>Identifiers are ASCII here; \<^verbatim>\<open>lower\<close> maps the letters A to Z and leaves the rest.\<close>

definition lower_char :: "char \<Rightarrow> char" where
  "lower_char c =
     (case map_of (zip ''ABCDEFGHIJKLMNOPQRSTUVWXYZ'' ''abcdefghijklmnopqrstuvwxyz'') c of
        Some d \<Rightarrow> d
      | None \<Rightarrow> c)"

definition lower :: "string \<Rightarrow> string" where
  "lower s = map lower_char s"

subsection \<open>\<^verbatim>\<open>SIMPLE_SORTS\<close>, \<^verbatim>\<open>GENERIC_SORTS\<close> and \<^verbatim>\<open>ann2sort\<close>\<close>

definition SIMPLE_SORTS :: "string \<rightharpoonup> z3_sort" where
  "SIMPLE_SORTS = map_of
     [(''bool'', BoolSort),
      (''int'', IntSort),
      (''float'', FloatSort_sort),
      (''str'', StringSort)]"

definition GENERIC_SORTS :: "string \<rightharpoonup> (z3_sort \<Rightarrow> z3_sort)" where
  "GENERIC_SORTS = map_of
     [(''list'', SeqSort),
      (''set'', SetSort)]"

definition sort_from_name :: "string \<Rightarrow> z3_sort option" where
  "sort_from_name name = (case SIMPLE_SORTS name of None \<Rightarrow> None | Some s \<Rightarrow> Some s)"

definition sort_from_str :: "string \<Rightarrow> z3_sort option" where
  "sort_from_str val = (case SIMPLE_SORTS val of None \<Rightarrow> None | Some s \<Rightarrow> Some s)"

text \<open>
  \<^verbatim>\<open>ann2sort\<close> and \<^verbatim>\<open>_sort_from_getattr\<close> call each other. The second takes the two
  fields of its \<^verbatim>\<open>Subscript\<close> node. Neither has a \<^verbatim>\<open>raise\<close>, but
  \<^verbatim>\<open>get_name(node.value).lower()\<close> is called on whatever \<^verbatim>\<open>get_name\<close> returns: on \<^verbatim>\<open>None\<close>
  it raises \<^verbatim>\<open>AttributeError\<close>, which nothing here catches.
\<close>

fun ann2sort :: "('d, 'z) resolution_scheme \<Rightarrow> node \<Rightarrow> exc + z3_sort option"
  and sort_from_getattr ::
    "('d, 'z) resolution_scheme \<Rightarrow> node \<Rightarrow> node \<Rightarrow> exc + z3_sort option"
where
  "ann2sort r (Index v) = ann2sort r v"
| "ann2sort r (Name name) = Inr (sort_from_name name)"
| "ann2sort r (Const (VStr val)) = Inr (sort_from_str val)"
| "ann2sort r (Subscript v sl) = sort_from_getattr r v sl"
| "ann2sort r _ = Inr None"
| "sort_from_getattr r v sl =
     (let definitions = infer r v in
      if length definitions \<noteq> 1 then Inr None
      else
        let module_name = fst (get_full_name r (definitions ! 0)) in
        if module_name \<noteq> ''typing'' \<and> module_name \<noteq> ''builtins'' then Inr None
        else
          (case get_name r v of
             None \<Rightarrow> Inl (AttributeError [''NoneType'', ''lower''])
           | Some nm \<Rightarrow>
               let type_name = lower nm in
               (case GENERIC_SORTS type_name of
                  None \<Rightarrow> Inr None
                | Some sort_ctor \<Rightarrow>
                    (case ann2sort r sl of
                       Inl e \<Rightarrow> Inl e
                     | Inr None \<Rightarrow> Inr None
                     | Inr (Some subsort) \<Rightarrow> Inr (Some (sort_ctor subsort))))))"

section \<open>The terms of the solver, the symbolic context and the function description\<close>

text \<open>
  z3 is a library, not part of the repository. Its terms are kept as they are built:
  \<^verbatim>\<open>z3.Const(name, sort)\<close>, \<^verbatim>\<open>z3.BoolVal\<close>, \<^verbatim>\<open>z3.And(*args)\<close>, \<^verbatim>\<open>z3.Not(a)\<close>, and
  \<^verbatim>\<open>z3_App\<close> for every other application the evaluators build.
\<close>

datatype expr =
    z3_Const string z3_sort
  | z3_BoolVal bool
  | z3_And "expr list"
  | z3_Not expr
  | z3_App string "expr list"

text \<open>The truth of a term under a valuation \<open>v\<close> of the terms that are not connectives.\<close>

fun holds :: "(expr \<Rightarrow> bool) \<Rightarrow> expr \<Rightarrow> bool" where
  "holds v (z3_BoolVal b) = b"
| "holds v (z3_And es) = list_all (holds v) es"
| "holds v (z3_Not e) = (\<not> holds v e)"
| "holds v e = v e"

text \<open>
  A \<^verbatim>\<open>z3.Goal\<close> is the list of the formulas added to it; \<^verbatim>\<open>Goal.as_expr\<close> is \<^verbatim>\<open>True\<close> for
  the empty goal, the formula itself for one formula, and their \<^verbatim>\<open>And\<close> otherwise.
\<close>

type_synonym goal = "expr list"

definition goal_add :: "goal \<Rightarrow> expr list \<Rightarrow> goal" where
  "goal_add g fs = g @ fs"

definition as_expr :: "goal \<Rightarrow> expr" where
  "as_expr g = (case g of [] \<Rightarrow> z3_BoolVal True | [f] \<Rightarrow> f | _ \<Rightarrow> z3_And g)"

text \<open>\<^verbatim>\<open>wrap\<close> of \<^verbatim>\<open>deal/_solver/_sorts.py\<close> turns a term into a symbolic value.\<close>

datatype proxy = wrap expr

datatype solver = Solver (assertions: "expr list")

datatype check_result = sat | unsat | unknown

text \<open>
  Modelled from the spec: \<^verbatim>\<open>Context\<close> lives in \<^verbatim>\<open>deal/_solver/_context.py\<close>, which is not
  among the sources. The specification gives it a scope from names to symbolic values and
  the two ordered collections \<^verbatim>\<open>given\<close> and \<^verbatim>\<open>expected\<close>; \<^verbatim>\<open>make_empty\<close> creates it with
  all three empty, and \<^verbatim>\<open>scope.set\<close> binds or overwrites a name.
\<close>

record Context =
  scope :: "string \<rightharpoonup> proxy"
  given :: "expr list"
  expected :: "expr list"

definition make_empty :: Context where
  "make_empty = \<lparr>scope = Map.empty, given = [], expected = []\<rparr>"

definition scope_set :: "Context \<Rightarrow> string \<Rightarrow> proxy \<Rightarrow> Context" where
  "scope_set ctx name val = ctx\<lparr>scope := (scope ctx)(name \<mapsto> val)\<rparr>"

text \<open>
  The function description, astroid's \<^verbatim>\<open>FunctionDef\<close>. \<^verbatim>\<open>func_args\<close> is its field
  \<^verbatim>\<open>args\<close>, an \<^verbatim>\<open>Arguments\<close> node. astroid keeps the parameters of a function by kind:
  the positional-only ones, the ordinary ones in \<^verbatim>\<open>args\<close>, \<^verbatim>\<open>*args\<close>, the keyword-only ones
  and \<^verbatim>\<open>**kwargs\<close>, each kind with its annotations (\<^verbatim>\<open>None\<close> where a parameter has
  none). The decorators and the body are only handed on to the evaluators.
\<close>

record Arguments =
  posonlyargs :: "string list"
  posonlyargs_annotations :: "node option list"
  args :: "string list"
  annotations :: "node option list"
  vararg :: "string option"
  varargannotation :: "node option"
  kwonlyargs :: "string list"
  kwonlyargs_annotations :: "node option list"
  kwarg :: "string option"
  kwargannotation :: "node option"

text \<open>Every parameter the function declares, with its annotation.\<close>

definition declared_parameters :: "Arguments \<Rightarrow> (string \<times> node option) list" where
  "declared_parameters a =
     zip (posonlyargs a) (posonlyargs_annotations a)
     @ zip (args a) (annotations a)
     @ (case vararg a of None \<Rightarrow> [] | Some n \<Rightarrow> [(n, varargannotation a)])
     @ zip (kwonlyargs a) (kwonlyargs_annotations a)
     @ (case kwarg a of None \<Rightarrow> [] | Some n \<Rightarrow> [(n, kwargannotation a)])"

record ('b, 'c) FunctionDef =
  name :: string
  func_args :: Arguments
  decorators :: 'c
  body :: 'b

text \<open>
  The collaborators that are not among the sources. \<^verbatim>\<open>eval_stmt\<close> changes the context it is
  given and may raise on the way: it returns the exception, if any, and the context as
  it left it. \<^verbatim>\<open>eval_contracts\<close> returns the dictionary of goals or raises.
  \<^verbatim>\<open>check\<close> and \<^verbatim>\<open>model\<close> stand for \<^verbatim>\<open>z3.Solver.check\<close> and \<^verbatim>\<open>z3.Solver.model\<close> on the
  assertions of the solver. A \<^verbatim>\<open>z3.ModelRef\<close> is kept as the list of the constants it
  interprets, each with its value.
\<close>

type_synonym ModelRef = "(string \<times> expr) list"

record ('d, 'b, 'c) env = "'d resolution" +
  as_string :: "node \<Rightarrow> string"
  eval_stmt :: "('b, 'c) FunctionDef \<Rightarrow> Context \<Rightarrow> exc option \<times> Context"
  eval_contracts :: "'c \<Rightarrow> Context \<Rightarrow> exc + (string \<rightharpoonup> goal)"
  check :: "expr list \<Rightarrow> exc + check_result"
  model :: "expr list \<Rightarrow> ModelRef"

section \<open>\<^verbatim>\<open>Theorem\<close>\<close>

datatype Conclusion = OK | SKIP | FAIL

text \<open>
  The instance dictionary of a \<^verbatim>\<open>Theorem\<close>: the function description, the three verdict
  fields (unset is \<^verbatim>\<open>None\<close>, the class default), and one slot for each memoized property.
\<close>

record ('b, 'c) Theorem =
  func :: "('b, 'c) FunctionDef"
  conclusion :: "Conclusion option"
  error :: "exc option"
  example :: "ModelRef option"
  cached_arguments :: "(string \<times> proxy) list option"
  cached_context :: "Context option"
  cached_contracts :: "(string \<rightharpoonup> goal) option"
  cached_constraint :: "expr option"
  cached_solver :: "solver option"

text \<open>\<^verbatim>\<open>Theorem(node)\<close>: only \<^verbatim>\<open>_func\<close> is set.\<close>

definition init :: "('b, 'c) FunctionDef \<Rightarrow> ('b, 'c) Theorem" where
  "init node = \<lparr>func = node, conclusion = None, error = None, example = None,
     cached_arguments = None, cached_context = None, cached_contracts = None,
     cached_constraint = None, cached_solver = None\<rparr>"

text \<open>
  Modelled from the spec: \<^verbatim>\<open>cached_property\<close> lives in \<^verbatim>\<open>deal/_cached_property.py\<close>, which
  is not among the sources. The specification describes the derived values as lazily
  computed and memoized: computed on first access, kept from then on, and dropped by
  \<^verbatim>\<open>reset\<close>. A computation that raises stores nothing.
\<close>

definition cached_property ::
  "('t \<Rightarrow> 'a option) \<Rightarrow> ('a \<Rightarrow> 't \<Rightarrow> 't) \<Rightarrow> ('t \<Rightarrow> (exc + 'a) \<times> 't) \<Rightarrow> 't \<Rightarrow> (exc + 'a) \<times> 't" where
  "cached_property slot store compute t =
     (case slot t of
        Some v \<Rightarrow> (Inr v, t)
      | None \<Rightarrow>
          (case compute t of
             (Inl e, t') \<Rightarrow> (Inl e, t')
           | (Inr v, t') \<Rightarrow> (Inr v, store v t')))"

subsection \<open>\<^verbatim>\<open>arguments\<close>\<close>

text \<open>\<^verbatim>\<open>result[key] = val\<close> on a dictionary that keeps the order of insertion.\<close>

fun dict_setitem :: "('k \<times> 'v) list \<Rightarrow> 'k \<Rightarrow> 'v \<Rightarrow> ('k \<times> 'v) list" where
  "dict_setitem [] k v = [(k, v)]"
| "dict_setitem ((k', v') # kvs) k v =
     (if k' = k then (k, v) # kvs else (k', v') # dict_setitem kvs k v)"

fun arguments_loop ::
  "('d, 'b, 'c) env \<Rightarrow> (string \<times> node option) list \<Rightarrow> (string \<times> proxy) list
     \<Rightarrow> exc + (string \<times> proxy) list" where
  "arguments_loop x [] result = Inr result"
| "arguments_loop x ((arg, None) # rest) result =
     Inl (UnsupportedError [''missed annotation for'', arg])"
| "arguments_loop x ((arg, Some annotation) # rest) result =
     (case ann2sort x annotation of
        Inl e \<Rightarrow> Inl e
      | Inr None \<Rightarrow>
          Inl (UnsupportedError [''unsupported annotation type'', as_string x annotation])
      | Inr (Some s) \<Rightarrow>
          arguments_loop x rest (dict_setitem result arg (wrap (z3_Const arg s))))"

definition arguments_body ::
  "('d, 'b, 'c) env \<Rightarrow> ('b, 'c) FunctionDef \<Rightarrow> exc + (string \<times> proxy) list" where
  "arguments_body x f =
     arguments_loop x (zip (args (func_args f)) (annotations (func_args f))) []"

definition arguments ::
  "('d, 'b, 'c) env \<Rightarrow> ('b, 'c) Theorem
     \<Rightarrow> (exc + (string \<times> proxy) list) \<times> ('b, 'c) Theorem" where
  "arguments x =
     cached_property cached_arguments (\<lambda>v t. t\<lparr>cached_arguments := Some v\<rparr>)
       (\<lambda>t. (arguments_body x (func t), t))"

subsection \<open>\<^verbatim>\<open>context\<close>\<close>

definition the_context ::
  "('d, 'b, 'c) env \<Rightarrow> ('b, 'c) Theorem \<Rightarrow> (exc + Context) \<times> ('b, 'c) Theorem" where
  "the_context x =
     cached_property cached_context (\<lambda>v t. t\<lparr>cached_context := Some v\<rparr>)
       (\<lambda>t. let ctx = make_empty in
            (case arguments x t of
               (Inl e, t') \<Rightarrow> (Inl e, t')
             | (Inr a, t') \<Rightarrow>
                 (Inr (foldl (\<lambda>ctx (name, val). scope_set ctx name val) ctx a), t')))"

subsection \<open>\<^verbatim>\<open>contracts\<close>\<close>

definition contracts ::
  "('d, 'b, 'c) env \<Rightarrow> ('b, 'c) Theorem
     \<Rightarrow> (exc + (string \<rightharpoonup> goal)) \<times> ('b, 'c) Theorem" where
  "contracts x =
     cached_property cached_contracts (\<lambda>v t. t\<lparr>cached_contracts := Some v\<rparr>)
       (\<lambda>t. (case the_context x t of
               (Inl e, t') \<Rightarrow> (Inl e, t')
             | (Inr ctx, t') \<Rightarrow> (eval_contracts x (decorators (func t)) ctx, t')))"

subsection \<open>\<^verbatim>\<open>constraint\<close>\<close>

text \<open>
  \<^verbatim>\<open>self.context\<close> is memoized by its first access, and the \<^verbatim>\<open>Context\<close> object is shared:
  what \<^verbatim>\<open>eval_stmt\<close> does to it is written back to the slot, also when \<^verbatim>\<open>eval_stmt\<close>
  raises. \<^verbatim>\<open>self.contracts['post']\<close> is the first access to the contracts, after the
  body has been evaluated; a key that is missing raises \<^verbatim>\<open>KeyError\<close>.
\<close>

definition constraint_body ::
  "('d, 'b, 'c) env \<Rightarrow> ('b, 'c) Theorem \<Rightarrow> (exc + expr) \<times> ('b, 'c) Theorem" where
  "constraint_body x t =
     (case the_context x t of
        (Inl e, t1) \<Rightarrow> (Inl e, t1)
      | (Inr ctx, t1) \<Rightarrow>
          let asserts = [] in
          (case eval_stmt x (func t1) ctx of
             (Some e, ctx') \<Rightarrow> (Inl e, t1\<lparr>cached_context := Some ctx'\<rparr>)
           | (None, ctx') \<Rightarrow>
               let t2 = t1\<lparr>cached_context := Some ctx'\<rparr>;
                   asserts = goal_add asserts (expected ctx')
               in
               (case contracts x t2 of
                  (Inl e, t3) \<Rightarrow> (Inl e, t3)
                | (Inr cs, t3) \<Rightarrow>
                    (case cs ''post'' of
                       None \<Rightarrow> (Inl (KeyError [''post'']), t3)
                     | Some post \<Rightarrow>
                         let asserts = goal_add asserts [as_expr post] in
                         (case cs ''pre'' of
                            None \<Rightarrow> (Inl (KeyError [''pre'']), t3)
                          | Some pre \<Rightarrow>
                              (Inr (z3_And ([as_expr pre] @ given ctx'
                                      @ [z3_Not (as_expr asserts)])), t3))))))"

definition constraint ::
  "('d, 'b, 'c) env \<Rightarrow> ('b, 'c) Theorem \<Rightarrow> (exc + expr) \<times> ('b, 'c) Theorem" where
  "constraint x =
     cached_property cached_constraint (\<lambda>v t. t\<lparr>cached_constraint := Some v\<rparr>)
       (constraint_body x)"

subsection \<open>\<^verbatim>\<open>solver\<close>\<close>

definition solver ::
  "('d, 'b, 'c) env \<Rightarrow> ('b, 'c) Theorem \<Rightarrow> (exc + solver) \<times> ('b, 'c) Theorem" where
  "solver x =
     cached_property cached_solver (\<lambda>v t. t\<lparr>cached_solver := Some v\<rparr>)
       (\<lambda>t. (case the_context x t of
               (Inl e, t1) \<Rightarrow> (Inl e, t1)
             | (Inr ctx, t1) \<Rightarrow>
                 (case constraint x t1 of
                    (Inl e, t2) \<Rightarrow> (Inl e, t2)
                  | (Inr c, t2) \<Rightarrow> (Inr (Solver [c]), t2))))"

subsection \<open>\<^verbatim>\<open>reset\<close> and \<^verbatim>\<open>prove\<close>\<close>

text \<open>\<^verbatim>\<open>self.__dict__.clear()\<close> empties every slot; \<^verbatim>\<open>_func\<close> is put back.\<close>

definition reset :: "('b, 'c) Theorem \<Rightarrow> ('b, 'c) Theorem" where
  "reset t =
     (let f = func t;
          cleared = t\<lparr>conclusion := None, error := None, example := None,
            cached_arguments := None, cached_context := None, cached_contracts := None,
            cached_constraint := None, cached_solver := None\<rparr>
      in cleared\<lparr>func := f\<rparr>)"

text \<open>\<^verbatim>\<open>self.solver.check()\<close>, the expression inside the \<^verbatim>\<open>try\<close>.\<close>

definition solver_check ::
  "('d, 'b, 'c) env \<Rightarrow> ('b, 'c) Theorem
     \<Rightarrow> (exc + check_result) \<times> ('b, 'c) Theorem" where
  "solver_check x t =
     (case solver x t of
        (Inl e, t') \<Rightarrow> (Inl e, t')
      | (Inr s, t') \<Rightarrow> (check x (assertions s), t'))"

definition prove ::
  "('d, 'b, 'c) env \<Rightarrow> ('b, 'c) Theorem \<Rightarrow> (exc + unit) \<times> ('b, 'c) Theorem" where
  "prove x t =
     (if conclusion t \<noteq> None then (Inl (RuntimeError [''already proved'']), t)
      else
        (case solver_check x t of
           (Inl (UnsupportedError a), t') \<Rightarrow>
             (Inr (), t'\<lparr>conclusion := Some SKIP, error := Some (UnsupportedError a)\<rparr>)
         | (Inl e, t') \<Rightarrow> (Inl e, t')
         | (Inr result, t') \<Rightarrow>
             if result = unsat then (Inr (), t'\<lparr>conclusion := Some OK\<rparr>)
             else if result = unknown then
               (Inr (), t'\<lparr>conclusion := Some SKIP,
                           error := Some (ProveError [''cannot validate theorem''])\<rparr>)
             else if result = sat then
               (let t' = t'\<lparr>conclusion := Some FAIL\<rparr> in
                (case solver x t' of
                   (Inl e, t'') \<Rightarrow> (Inl e, t'')
                 | (Inr s, t'') \<Rightarrow> (Inr (), t''\<lparr>example := Some (model x (assertions s))\<rparr>)))
             else (Inl (RuntimeError [''unreachable'']), t')))"


section \<open>The states a \<^verbatim>\<open>Theorem\<close> can be in\<close>

text \<open>
  A \<^verbatim>\<open>Theorem\<close> is created by its constructor and changes through its own interface: the
  five memoized properties, \<^verbatim>\<open>reset\<close> and \<^verbatim>\<open>prove\<close>.
\<close>

inductive reachable :: "('d, 'b, 'c) env \<Rightarrow> ('b, 'c) Theorem \<Rightarrow> bool"
  for x :: "('d, 'b, 'c) env" where
  created: "reachable x (init node)"
| get_arguments: "reachable x t \<Longrightarrow> reachable x (snd (arguments x t))"
| get_context: "reachable x t \<Longrightarrow> reachable x (snd (the_context x t))"
| get_contracts: "reachable x t \<Longrightarrow> reachable x (snd (contracts x t))"
| get_constraint: "reachable x t \<Longrightarrow> reachable x (snd (constraint x t))"
| get_solver: "reachable x t \<Longrightarrow> reachable x (snd (solver x t))"
| call_reset: "reachable x t \<Longrightarrow> reachable x (reset t)"
| call_prove: "reachable x t \<Longrightarrow> reachable x (snd (prove x t))"

text \<open>The formula that \<^verbatim>\<open>constraint\<close> returns, from the context and the two goals.\<close>

definition constraint_of :: "Context \<Rightarrow> goal \<Rightarrow> goal \<Rightarrow> expr" where
  "constraint_of ctx pre post =
     z3_And ([as_expr pre] @ given ctx @ [z3_Not (as_expr (expected ctx @ [as_expr post]))])"

text \<open>
  What holds of the slots in every reachable state: a memoized value is the one its
  property computes, a slot is only filled after the slots it is computed from, and the
  error and the example are unset while the conclusion is.
\<close>

definition slots_ok :: "('d, 'b, 'c) env \<Rightarrow> ('b, 'c) Theorem \<Rightarrow> bool" where
  "slots_ok x t \<longleftrightarrow>
     (\<forall>a. cached_arguments t = Some a \<longrightarrow> arguments_body x (func t) = Inr a) \<and>
     (cached_context t \<noteq> None \<longrightarrow> cached_arguments t \<noteq> None) \<and>
     (cached_contracts t \<noteq> None \<longrightarrow> cached_context t \<noteq> None) \<and>
     (\<forall>c. cached_constraint t = Some c \<longrightarrow>
        (\<exists>ctx cs pre post. cached_context t = Some ctx \<and> cached_contracts t = Some cs
           \<and> cs ''pre'' = Some pre \<and> cs ''post'' = Some post
           \<and> c = constraint_of ctx pre post)) \<and>
     (\<forall>s. cached_solver t = Some s \<longrightarrow>
        (\<exists>c. cached_constraint t = Some c \<and> s = Solver [c])) \<and>
     (conclusion t = None \<longrightarrow> error t = None \<and> example t = None)"

definition same_verdict :: "('b, 'c) Theorem \<Rightarrow> ('b, 'c) Theorem \<Rightarrow> bool" where
  "same_verdict t t' \<longleftrightarrow>
     func t' = func t \<and> conclusion t' = conclusion t \<and> error t' = error t
     \<and> example t' = example t"

section \<open>Concrete functions and concrete collaborators\<close>

text \<open>
  A resolution that behaves as the front-end does on the names of \<^verbatim>\<open>typing\<close>: \<^verbatim>\<open>List\<close>,
  \<^verbatim>\<open>Set\<close> and \<^verbatim>\<open>Dict\<close> resolve to one definition each, written bare or as
  \<^verbatim>\<open>typing.List\<close>, and a subscript resolves to what its outer expression does. The name of
  an expression is its identifier, or the dotted path of an attribute; other expressions
  have none.
\<close>

fun ex_infer :: "node \<Rightarrow> string list" where
  "ex_infer (Name s) = (if s \<in> {''List'', ''Set'', ''Dict''} then [s] else [])"
| "ex_infer (Attribute (Name m) s) =
     (if m = ''typing'' \<and> s \<in> {''List'', ''Set'', ''Dict''} then [s] else [])"
| "ex_infer (Subscript v sl) = ex_infer v"
| "ex_infer _ = []"

fun ex_get_name :: "node \<Rightarrow> string option" where
  "ex_get_name (Name s) = Some s"
| "ex_get_name (Attribute e a) =
     (case ex_get_name e of None \<Rightarrow> None | Some left \<Rightarrow> Some (left @ ''.'' @ a))"
| "ex_get_name _ = None"

text \<open>
  The fourth scenario of the specification: \<^verbatim>\<open>f(x: int, y: int)\<close> with the precondition
  \<^verbatim>\<open>y != 0\<close>, a trivial postcondition and the body \<^verbatim>\<open>return x / y\<close>. The statement evaluator
  of the example binds \<^verbatim>\<open>result\<close> and expects the divisor to differ from zero, or raises
  what it is told to; the contract evaluator returns the two goals; the solver answers
  what it is told to, and its model interprets \<^verbatim>\<open>y\<close> only, the one constant of the formula.
\<close>

definition ex_zero :: expr where
  "ex_zero = z3_App ''0'' []"

definition ex_y_nonzero :: expr where
  "ex_y_nonzero = z3_App ''!='' [z3_Const ''y'' IntSort, ex_zero]"

definition ex_quotient :: expr where
  "ex_quotient = z3_App ''/'' [z3_Const ''x'' IntSort, z3_Const ''y'' IntSort]"

definition ex_constraint :: expr where
  "ex_constraint = z3_And [ex_y_nonzero, z3_Not (z3_And [ex_y_nonzero, z3_BoolVal True])]"

definition ex_env ::
  "exc option \<Rightarrow> exc + check_result \<Rightarrow> (string, string, string) env" where
  "ex_env stmt_exc answer =
     \<lparr>infer = ex_infer,
      get_full_name = (\<lambda>d. (''typing'', d)),
      get_name = ex_get_name,
      as_string = (\<lambda>n. case n of Name s \<Rightarrow> s | _ \<Rightarrow> ''...''),
      eval_stmt = (\<lambda>f ctx.
        (stmt_exc,
         ctx\<lparr>scope := (scope ctx)(''result'' \<mapsto> wrap ex_quotient),
             expected := expected ctx @ [ex_y_nonzero]\<rparr>)),
      eval_contracts = (\<lambda>d ctx.
        Inr [''pre'' \<mapsto> [ex_y_nonzero], ''post'' \<mapsto> [z3_BoolVal True]]),
      check = (\<lambda>fs. answer),
      model = (\<lambda>fs. [(''y'', ex_zero)])\<rparr>"

definition ex_func :: "(string, string) FunctionDef" where
  "ex_func =
     \<lparr>name = ''f'',
      func_args =
        \<lparr>posonlyargs = [], posonlyargs_annotations = [],
         args = [''x'', ''y''],
         annotations = [Some (Name ''int''), Some (Name ''int'')],
         vararg = None, varargannotation = None,
         kwonlyargs = [], kwonlyargs_annotations = [],
         kwarg = None, kwargannotation = None\<rparr>,
      decorators = ''@deal.pre(lambda x, y: y != 0)'',
      body = ''return x / y''\<rparr>"

text \<open>The same function with \<^verbatim>\<open>y\<close> left without an annotation (the third scenario).\<close>

definition ex_func_unannotated :: "(string, string) FunctionDef" where
  "ex_func_unannotated =
     ex_func\<lparr>func_args := (func_args ex_func)\<lparr>annotations := [Some (Name ''int''), None]\<rparr>\<rparr>"

text \<open>
  \<^verbatim>\<open>def f(x, /, y: int): return 1 / y\<close> under the same precondition: \<^verbatim>\<open>x\<close> is
  positional-only and has no annotation.
\<close>

definition ex_func_posonly :: "(string, string) FunctionDef" where
  "ex_func_posonly =
     ex_func\<lparr>func_args := (func_args ex_func)
                \<lparr>posonlyargs := [''x''], posonlyargs_annotations := [None],
                 args := [''y''], annotations := [Some (Name ''int'')]\<rparr>,
             body := ''return 1 / y''\<rparr>"

text \<open>The annotation \<^verbatim>\<open>List[int][int]\<close>, and \<^verbatim>\<open>f(x: List[int][int], y: int)\<close>.\<close>

definition ex_nested :: node where
  "ex_nested =
     Subscript (Subscript (Name ''List'') (Index (Name ''int''))) (Index (Name ''int''))"

definition ex_func_nested :: "(string, string) FunctionDef" where
  "ex_func_nested =
     ex_func\<lparr>func_args := (func_args ex_func)
                \<lparr>annotations := [Some ex_nested, Some (Name ''int'')]\<rparr>\<rparr>"

text \<open>
  \<^verbatim>\<open>f(x: int, y: int)\<close> with the body \<^verbatim>\<open>return x / y\<close> and no contract: both goals are
  empty, and the formula is satisfied by \<^verbatim>\<open>y = 0\<close> whatever \<^verbatim>\<open>x\<close> is.
\<close>

definition ex_func_unguarded :: "(string, string) FunctionDef" where
  "ex_func_unguarded = ex_func\<lparr>decorators := []\<rparr>"

definition ex_env_unguarded :: "(string, string, string) env" where
  "ex_env_unguarded =
     (ex_env None (Inr sat))
       \<lparr>eval_contracts := (\<lambda>d ctx. Inr [''pre'' \<mapsto> [], ''post'' \<mapsto> []])\<rparr>"

definition ex_constraint_unguarded :: expr where
  "ex_constraint_unguarded =
     z3_And [z3_BoolVal True, z3_Not (z3_And [ex_y_nonzero, z3_BoolVal True])]"

text \<open>
  Collaborators whose postcondition depends on the binding of \<^verbatim>\<open>result\<close>: evaluated
  before the body has bound it, the postcondition cannot be met; the solver finds the
  formula of the fourth scenario unsatisfiable and every other one satisfiable.
\<close>

definition ex_env_result :: "(string, string, string) env" where
  "ex_env_result =
     (ex_env None (Inr unsat))
       \<lparr>eval_contracts := (\<lambda>d ctx.
          Inr [''pre'' \<mapsto> [ex_y_nonzero],
               ''post'' \<mapsto> [case scope ctx ''result'' of
                                None \<Rightarrow> z3_BoolVal False
                              | Some r \<Rightarrow> z3_BoolVal True]]),
        check := (\<lambda>fs. Inr (if fs = [ex_constraint] then unsat else sat))\<rparr>"

section \<open>The sort mapper\<close>

lemma GENERIC_SORTS_eq:
  "GENERIC_SORTS s =
     (if s = ''list'' then Some SeqSort else if s = ''set'' then Some SetSort else None)"
  by (simp add: GENERIC_SORTS_def)

lemma sort_from_getattr_eq:
  "sort_from_getattr r v sl =
     (if length (infer r v) = 1
         \<and> fst (get_full_name r (hd (infer r v))) \<in> {''typing'', ''builtins''}
      then (case get_name r v of
              None \<Rightarrow> Inl (AttributeError [''NoneType'', ''lower''])
            | Some nm \<Rightarrow>
                if lower nm \<in> {''list'', ''set''}
                then (case ann2sort r sl of
                        Inl e \<Rightarrow> Inl e
                      | Inr None \<Rightarrow> Inr None
                      | Inr (Some s) \<Rightarrow>
                          Inr (Some ((if lower nm = ''list'' then SeqSort else SetSort) s)))
                else Inr None)
      else Inr None)"
  by (cases "infer r v")
    (auto simp: Let_def GENERIC_SORTS_eq split: option.splits sum.splits)

declare sort_from_getattr.simps [simp del]

lemma ex_infer: "infer (ex_env e a) = ex_infer"
  by (simp add: ex_env_def)

lemma ex_get_full_name: "get_full_name (ex_env e a) d = (''typing'', d)"
  by (simp add: ex_env_def)

lemma ex_get_name: "get_name (ex_env e a) = ex_get_name"
  by (simp add: ex_env_def)

lemma lower_examples:
  "lower ''List'' = ''list'' \<and> lower ''Set'' = ''set''
   \<and> lower ''Dict'' = ''dict'' \<and> lower ''typing.List'' = ''typing.list''"
  by (simp add: lower_def lower_char_def)

text \<open>
  C4. \<^verbatim>\<open>ann2sort\<close> does raise: at the annotation \<^verbatim>\<open>List[int][int]\<close> the outer expression
  \<^verbatim>\<open>List[int]\<close> resolves to one definition of \<^verbatim>\<open>typing\<close> and has no name, and
  \<^verbatim>\<open>get_name(node.value).lower()\<close> raises \<^verbatim>\<open>AttributeError\<close> where the claim has no sort
  returned.
\<close>

theorem ann2sort_raises:
  "ann2sort (ex_env None (Inr unsat))
     (Subscript (Subscript (Name ''List'') (Index (Name ''int''))) (Index (Name ''int'')))
   = Inl (AttributeError [''NoneType'', ''lower''])"
  by (simp add: sort_from_getattr_eq ex_infer ex_get_full_name ex_get_name)

text \<open>
  C5, as it is stated, fails at \<^verbatim>\<open>typing.List[int]\<close>: the outer expression resolves to
  one definition, \<^verbatim>\<open>List\<close> of \<^verbatim>\<open>typing\<close>, and the argument maps to the integer sort, but
  there is no sort, because the name as written is \<^verbatim>\<open>typing.List\<close>.
\<close>

theorem ann2sort_subscript_counterexample:
  "infer (ex_env None (Inr unsat)) (Attribute (Name ''typing'') ''List'') = [''List'']
   \<and> get_full_name (ex_env None (Inr unsat)) ''List'' = (''typing'', ''List'')
   \<and> ann2sort (ex_env None (Inr unsat)) (Index (Name ''int'')) = Inr (Some IntSort)
   \<and> ann2sort (ex_env None (Inr unsat))
        (Subscript (Attribute (Name ''typing'') ''List'') (Index (Name ''int''))) = Inr None"
  by (simp add: sort_from_getattr_eq ex_infer ex_get_full_name ex_get_name lower_examples
      sort_from_name_def SIMPLE_SORTS_def)

text \<open>
  C5, amended. For a subscript annotation whose outer expression has a name and whose
  type argument is mapped without an exception: there is a sort exactly when the outer
  expression resolves to one definition, the module of that definition is \<^verbatim>\<open>typing\<close> or
  \<^verbatim>\<open>builtins\<close>, the name as it is written, in lower case, is \<^verbatim>\<open>list\<close> or \<^verbatim>\<open>set\<close>, and the
  type argument maps to a sort \<open>s\<close>; the sort is then the sequence of \<open>s\<close> for list and the
  set of \<open>s\<close> for set. Otherwise there is no sort.
\<close>

theorem ann2sort_subscript:
  assumes "get_name r v = Some nm" and "ann2sort r sl = Inr so"
  shows "ann2sort r (Subscript v sl) =
     Inr (if length (infer r v) = 1
            \<and> fst (get_full_name r (hd (infer r v))) \<in> {''typing'', ''builtins''}
            \<and> lower nm \<in> {''list'', ''set''}
            \<and> so \<noteq> None
          then Some ((if lower nm = ''list'' then SeqSort else SetSort) (the so))
          else None)"
  using assms by (auto simp: sort_from_getattr_eq split: option.splits)

theorem ann2sort_subscript_witness:
  "ann2sort (ex_env None (Inr sat)) (Subscript (Name ''List'') (Index (Name ''int'')))
     = Inr (Some (SeqSort IntSort))
   \<and> ann2sort (ex_env None (Inr sat)) (Subscript (Name ''Set'') (Index (Name ''str'')))
     = Inr (Some (SetSort StringSort))
   \<and> ann2sort (ex_env None (Inr sat)) (Subscript (Name ''Dict'') (Index (Name ''str'')))
     = Inr None"
proof -
  have n: "get_name (ex_env None (Inr sat)) (Name s) = Some s" for s
    by (simp add: ex_get_name)
  have i: "ann2sort (ex_env None (Inr sat)) (Index (Name ''int'')) = Inr (Some IntSort)"
    by (simp add: sort_from_name_def SIMPLE_SORTS_def)
  have s: "ann2sort (ex_env None (Inr sat)) (Index (Name ''str'')) = Inr (Some StringSort)"
    by (simp add: sort_from_name_def SIMPLE_SORTS_def)
  show ?thesis
    using ann2sort_subscript [OF n i, of "''List''"] ann2sort_subscript [OF n s, of "''Set''"]
      ann2sort_subscript [OF n s, of "''Dict''"]
    by (simp add: ex_infer ex_get_full_name lower_examples)
qed

text \<open>
  C6. The bare names \<^verbatim>\<open>bool\<close>, \<^verbatim>\<open>int\<close>, \<^verbatim>\<open>float\<close> and \<^verbatim>\<open>str\<close> map to the boolean, the
  integer, the real and the string sort.
\<close>

theorem ann2sort_primitive:
  "ann2sort r (Name ''bool'') = Inr (Some BoolSort)
   \<and> ann2sort r (Name ''int'') = Inr (Some IntSort)
   \<and> ann2sort r (Name ''float'') = Inr (Some RealSort)
   \<and> ann2sort r (Name ''str'') = Inr (Some StringSort)"
  by (simp add: sort_from_name_def SIMPLE_SORTS_def FloatSort_sort_def)

text \<open>
  C7. A string literal with the value \<open>s\<close> and a bare name \<open>s\<close> map to the same sort, or
  both to none.
\<close>

theorem ann2sort_str_is_name: "ann2sort r (Const (VStr s)) = ann2sort r (Name s)"
  by (simp add: sort_from_str_def sort_from_name_def)

section \<open>The memoized properties keep the slots consistent\<close>

lemma slots_ok_init: "slots_ok x (init f)"
  by (simp add: slots_ok_def init_def)

lemma slots_ok_reset: "slots_ok x (reset t)"
  by (simp add: slots_ok_def reset_def)

lemma cached_property_cases:
  assumes "cached_property slot store compute t = (r, t')"
  obtains (cached) v where "slot t = Some v" "r = Inr v" "t' = t"
    | (raised) e where "slot t = None" "compute t = (Inl e, t')" "r = Inl e"
    | (stored) v t1 where "slot t = None" "compute t = (Inr v, t1)" "r = Inr v" "t' = store v t1"
  using assms
  by (auto simp: cached_property_def split: option.splits sum.splits prod.splits)

lemma arguments_post:
  assumes "slots_ok x t" "arguments x t = (r, t')"
  shows "slots_ok x t' \<and> same_verdict t t'
     \<and> cached_context t' = cached_context t \<and> cached_contracts t' = cached_contracts t
     \<and> cached_constraint t' = cached_constraint t \<and> cached_solver t' = cached_solver t
     \<and> (\<forall>a. r = Inr a \<longrightarrow> cached_arguments t' = Some a)
     \<and> (\<forall>e. r = Inl e \<longrightarrow> arguments_body x (func t) = Inl e)"
  using assms(2) unfolding arguments_def
proof (cases rule: cached_property_cases)
  case (cached v)
  then show ?thesis using assms(1) by (simp add: same_verdict_def)
next
  case (raised e)
  then show ?thesis using assms(1) by (auto simp: same_verdict_def)
next
  case (stored v t1)
  then have "slots_ok x t'" using assms(1) by (auto simp: slots_ok_def)
  then show ?thesis using stored by (auto simp: same_verdict_def)
qed

lemma the_context_post:
  assumes "slots_ok x t" "the_context x t = (r, t')"
  shows "slots_ok x t' \<and> same_verdict t t'
     \<and> cached_contracts t' = cached_contracts t
     \<and> cached_constraint t' = cached_constraint t \<and> cached_solver t' = cached_solver t
     \<and> (\<forall>c. r = Inr c \<longrightarrow> cached_context t' = Some c)
     \<and> (cached_context t \<noteq> None \<longrightarrow> t' = t)
     \<and> (\<forall>e. r = Inl e \<longrightarrow> arguments_body x (func t) = Inl e)"
  using assms(2) unfolding the_context_def
proof (cases rule: cached_property_cases)
  case (cached v)
  then show ?thesis using assms(1) by (simp add: same_verdict_def)
next
  case (raised e)
  then have a: "arguments x t = (Inl e, t')"
    by (auto simp: Let_def split: prod.splits sum.splits)
  from arguments_post[OF assms(1) a] raised show ?thesis
    by simp
next
  case (stored c t1)
  then obtain a where a: "arguments x t = (Inr a, t1)"
    by (auto simp: Let_def split: prod.splits sum.splits)
  note t1 = arguments_post[OF assms(1) a]
  from t1 stored have none: "cached_context t1 = None" by simp
  with t1 have "cached_contracts t1 = None" "cached_constraint t1 = None" "cached_solver t1 = None"
    by (auto simp: slots_ok_def)
  with t1 none stored have "slots_ok x t'"
    by (simp add: slots_ok_def)
  then show ?thesis using stored t1 by (simp add: same_verdict_def)
qed

lemma contracts_post:
  assumes "slots_ok x t" "contracts x t = (r, t')"
  shows "slots_ok x t' \<and> same_verdict t t'
     \<and> cached_constraint t' = cached_constraint t \<and> cached_solver t' = cached_solver t
     \<and> (\<forall>cs. r = Inr cs \<longrightarrow> cached_contracts t' = Some cs)
     \<and> (cached_context t \<noteq> None \<longrightarrow> cached_context t' = cached_context t)"
  using assms(2) unfolding contracts_def
proof (cases rule: cached_property_cases)
  case (cached v)
  then show ?thesis using assms(1) by (simp add: same_verdict_def)
next
  case (raised e)
  obtain r1 t1 where c: "the_context x t = (r1, t1)" by (cases "the_context x t")
  note t1 = the_context_post[OF assms(1) c]
  from raised c have "t' = t1" by (auto split: sum.splits)
  with t1 raised(3) show ?thesis by auto
next
  case (stored cs t1)
  then obtain ctx where c: "the_context x t = (Inr ctx, t1)"
    by (auto split: prod.splits sum.splits)
  note t1 = the_context_post[OF assms(1) c]
  from t1 stored have none: "cached_contracts t1 = None" by simp
  with t1 have "cached_constraint t1 = None" "cached_solver t1 = None"
    by (auto simp: slots_ok_def)
  with t1 none stored have "slots_ok x t'"
    by (simp add: slots_ok_def)
  moreover have "cached_context t \<noteq> None \<longrightarrow> cached_context t' = cached_context t"
    using stored t1 by auto
  ultimately show ?thesis using stored t1 by (simp add: same_verdict_def)
qed


lemma slots_ok_set_context:
  assumes "slots_ok x t" "cached_context t \<noteq> None" "cached_constraint t = None"
  shows "slots_ok x (t\<lparr>cached_context := Some ctx\<rparr>)"
  using assms by (auto simp: slots_ok_def)

lemma constraint_body_post:
  assumes "slots_ok x t" "cached_constraint t = None" "constraint_body x t = (r, t')"
  shows "slots_ok x t' \<and> same_verdict t t' \<and> cached_constraint t' = None
     \<and> cached_solver t' = None
     \<and> (\<forall>c. r = Inr c \<longrightarrow>
          (\<exists>ctx cs pre post. cached_context t' = Some ctx \<and> cached_contracts t' = Some cs
             \<and> cs ''pre'' = Some pre \<and> cs ''post'' = Some post
             \<and> c = constraint_of ctx pre post))"
proof -
  from assms(1,2) have nosolver: "cached_solver t = None"
    by (auto simp: slots_ok_def)
  obtain r1 t1 where c1: "the_context x t = (r1, t1)" by (cases "the_context x t")
  note p1 = the_context_post[OF assms(1) c1]
  show ?thesis
  proof (cases r1)
    case (Inl e)
    with c1 assms(3) have "r = Inl e" "t' = t1"
      by (simp_all add: constraint_body_def)
    with p1 assms(2) nosolver show ?thesis by simp
  next
    case (Inr ctx)
    obtain eo ctx' where c2: "eval_stmt x (func t1) ctx = (eo, ctx')"
      by (cases "eval_stmt x (func t1) ctx")
    define t2 where "t2 = t1\<lparr>cached_context := Some ctx'\<rparr>"
    from p1 Inr assms(2) have i2: "slots_ok x t2"
      unfolding t2_def by (intro slots_ok_set_context) auto
    have v2: "same_verdict t t2" "cached_constraint t2 = None" "cached_solver t2 = None"
      "cached_context t2 = Some ctx'"
      using p1 assms(2) nosolver by (simp_all add: t2_def same_verdict_def)
    show ?thesis
    proof (cases eo)
      case (Some e)
      with c1 c2 Inr assms(3) have "r = Inl e" "t' = t2"
        by (simp_all add: constraint_body_def t2_def)
      with i2 v2 show ?thesis by simp
    next
      case None
      obtain r3 t3 where c3: "contracts x t2 = (r3, t3)" by (cases "contracts x t2")
      note p3 = contracts_post[OF i2 c3]
      have v3: "same_verdict t t3" "cached_constraint t3 = None" "cached_solver t3 = None"
        "cached_context t3 = Some ctx'"
        using p3 v2 by (simp_all add: same_verdict_def)
      have eq: "constraint_body x t =
        (case r3 of
           Inl e \<Rightarrow> (Inl e, t3)
         | Inr cs \<Rightarrow>
            (case cs ''post'' of
               None \<Rightarrow> (Inl (KeyError [''post'']), t3)
             | Some post \<Rightarrow>
                 (case cs ''pre'' of
                    None \<Rightarrow> (Inl (KeyError [''pre'']), t3)
                  | Some pre \<Rightarrow> (Inr (constraint_of ctx' pre post), t3))))"
        using c1 c2 c3 Inr None
        by (simp add: constraint_body_def t2_def Let_def goal_add_def constraint_of_def
            split: sum.splits option.splits)
      show ?thesis
      proof (cases r3)
        case (Inl e)
        with eq assms(3) have "r = Inl e" "t' = t3" by simp_all
        with p3 v3 show ?thesis by simp
      next
        case (Inr cs)
        with p3 have cs: "cached_contracts t3 = Some cs" by simp
        from eq assms(3) Inr have t': "t' = t3"
          by (auto split: option.splits)
        from eq assms(3) Inr have
          "\<forall>c. r = Inr c \<longrightarrow> (\<exists>pre post. cs ''pre'' = Some pre \<and> cs ''post'' = Some post
             \<and> c = constraint_of ctx' pre post)"
          by (auto split: option.splits)
        with t' p3 v3 cs show ?thesis by auto
      qed
    qed
  qed
qed

lemma constraint_post:
  assumes "slots_ok x t" "constraint x t = (r, t')"
  shows "slots_ok x t' \<and> same_verdict t t'
     \<and> cached_solver t' = cached_solver t
     \<and> (\<forall>c. r = Inr c \<longrightarrow> cached_constraint t' = Some c)"
  using assms(2) unfolding constraint_def
proof (cases rule: cached_property_cases)
  case (cached v)
  then show ?thesis using assms(1) by (simp add: same_verdict_def)
next
  case (raised e)
  from constraint_body_post[OF assms(1) raised(1,2)] raised(3) assms(1) raised(1)
  show ?thesis by (auto simp: slots_ok_def)
next
  case (stored c t1)
  note p = constraint_body_post[OF assms(1) stored(1,2)]
  from assms(1) stored(1) have "cached_solver t = None" by (auto simp: slots_ok_def)
  moreover from p stored have "slots_ok x t'" by (auto simp: slots_ok_def)
  ultimately show ?thesis using p stored by (simp add: same_verdict_def)
qed

lemma solver_post:
  assumes "slots_ok x t" "solver x t = (r, t')"
  shows "slots_ok x t' \<and> same_verdict t t'
     \<and> (\<forall>s. r = Inr s \<longrightarrow> cached_solver t' = Some s)
     \<and> (\<forall>e. r = Inl e \<longrightarrow> cached_solver t' = None)"
  using assms(2) unfolding solver_def
proof (cases rule: cached_property_cases)
  case (cached v)
  then show ?thesis using assms(1) by (simp add: same_verdict_def)
next
  case (raised e)
  obtain r1 t1 where c1: "the_context x t = (r1, t1)" by (cases "the_context x t")
  note p1 = the_context_post[OF assms(1) c1]
  obtain r2 t2 where c2: "constraint x t1 = (r2, t2)" by (cases "constraint x t1")
  from p1 have "slots_ok x t1" by simp
  note p2 = constraint_post[OF this c2]
  from raised c1 c2 have "t' = t1 \<or> t' = t2" by (auto split: sum.splits)
  with p1 p2 raised show ?thesis by (auto simp: same_verdict_def)
next
  case (stored s t2)
  then obtain ctx t1 c where c1: "the_context x t = (Inr ctx, t1)"
    and c2: "constraint x t1 = (Inr c, t2)" and s: "s = Solver [c]"
    by (auto split: prod.splits sum.splits)
  note p1 = the_context_post[OF assms(1) c1]
  from p1 have "slots_ok x t1" by simp
  note p2 = constraint_post[OF this c2]
  from p2 s stored have "slots_ok x t'" by (auto simp: slots_ok_def)
  then show ?thesis using p1 p2 stored by (simp add: same_verdict_def)
qed


lemma solver_stores:
  assumes "solver x t = (Inr s, t1)"
  shows "cached_solver t1 = Some s"
  using assms unfolding solver_def
  by (cases rule: cached_property_cases) simp_all

lemma solver_cached:
  assumes "cached_solver t = Some s"
  shows "solver x t = (Inr s, t)"
  using assms by (simp add: solver_def cached_property_def)

lemma prove_answer:
  assumes "conclusion t = None" "solver x t = (Inr s, t1)"
    and "check x (assertions s) = Inr result"
  shows "prove x t =
     (Inr (),
      case result of
        unsat \<Rightarrow> t1\<lparr>conclusion := Some OK\<rparr>
      | unknown \<Rightarrow> t1\<lparr>conclusion := Some SKIP,
                      error := Some (ProveError [''cannot validate theorem''])\<rparr>
      | sat \<Rightarrow> t1\<lparr>conclusion := Some FAIL, example := Some (model x (assertions s))\<rparr>)"
proof -
  have "cached_solver (t1\<lparr>conclusion := Some FAIL\<rparr>) = Some s"
    using solver_stores[OF assms(2)] by simp
  then have "solver x (t1\<lparr>conclusion := Some FAIL\<rparr>) = (Inr s, t1\<lparr>conclusion := Some FAIL\<rparr>)"
    by (rule solver_cached)
  then show ?thesis
    using assms by (cases result) (simp_all add: prove_def solver_check_def Let_def)
qed

lemma prove_raised:
  assumes "conclusion t = None" "solver_check x t = (Inl e, t1)"
  shows "prove x t =
     (case e of
        UnsupportedError a \<Rightarrow>
          (Inr (), t1\<lparr>conclusion := Some SKIP, error := Some (UnsupportedError a)\<rparr>)
      | _ \<Rightarrow> (Inl e, t1))"
  using assms by (cases e) (simp_all add: prove_def)

lemma solver_check_post:
  assumes "slots_ok x t" "solver_check x t = (r, t')"
  shows "slots_ok x t' \<and> same_verdict t t'"
proof -
  obtain r1 t1 where c1: "solver x t = (r1, t1)" by (cases "solver x t")
  with assms(2) have "t' = t1" by (cases r1) (simp_all add: solver_check_def)
  with solver_post[OF assms(1) c1] show ?thesis by simp
qed

lemma slots_ok_verdict:
  assumes "slots_ok x t" "c \<noteq> None"
  shows "slots_ok x (t\<lparr>conclusion := c, error := e, example := m\<rparr>)"
  using assms by (auto simp: slots_ok_def)

lemma prove_post:
  assumes "slots_ok x t" "prove x t = (r, t')"
  shows "slots_ok x t' \<and> func t' = func t"
proof (cases "conclusion t = None")
  case False
  with assms show ?thesis by (auto simp: prove_def)
next
  case True
  obtain r1 t1 where c1: "solver_check x t = (r1, t1)" by (cases "solver_check x t")
  note p1 = solver_check_post[OF assms(1) c1]
  show ?thesis
  proof (cases r1)
    case (Inl e)
    from prove_raised[OF True c1[unfolded Inl]] assms(2)
    have "t' = t1 \<or> (\<exists>a. t' = t1\<lparr>conclusion := Some SKIP, error := Some (UnsupportedError a)\<rparr>)"
      by (cases e) auto
    with p1 show ?thesis by (auto simp: slots_ok_def same_verdict_def)
  next
    case (Inr res)
    with c1 obtain s where s: "solver x t = (Inr s, t1)" "check x (assertions s) = Inr res"
      by (auto simp: solver_check_def split: prod.splits sum.splits)
    from prove_answer[OF True s] assms(2) p1 show ?thesis
      by (cases res) (auto simp: slots_ok_def same_verdict_def)
  qed
qed

lemma reachable_slots_ok: "reachable x t \<Longrightarrow> slots_ok x t"
proof (induction rule: reachable.induct)
  case (created node)
  show ?case by (simp add: slots_ok_def init_def)
next
  case (get_arguments t)
  then show ?case using arguments_post[of x t] by (cases "arguments x t") auto
next
  case (get_context t)
  then show ?case using the_context_post[of x t] by (cases "the_context x t") auto
next
  case (get_contracts t)
  then show ?case using contracts_post[of x t] by (cases "contracts x t") auto
next
  case (get_constraint t)
  then show ?case using constraint_post[of x t] by (cases "constraint x t") auto
next
  case (get_solver t)
  then show ?case using solver_post[of x t] by (cases "solver x t") auto
next
  case (call_reset t)
  show ?case by (simp add: slots_ok_def reset_def)
next
  case (call_prove t)
  then show ?case using prove_post[of x t] by (cases "prove x t") auto
qed

section \<open>\<^verbatim>\<open>prove\<close> and \<^verbatim>\<open>reset\<close>\<close>

text \<open>The example evaluated: every definition on the way is unfolded.\<close>

lemmas ex_unfold = solver_check_def solver_def cached_property_def the_context_def
  arguments_def arguments_body_def constraint_def constraint_body_def contracts_def init_def
  ex_env_def ex_func_def ex_func_unannotated_def ex_func_posonly_def ex_func_nested_def
  ex_func_unguarded_def ex_env_unguarded_def ex_env_result_def ex_nested_def
  sort_from_name_def SIMPLE_SORTS_def sort_from_getattr_eq Let_def
  make_empty_def scope_set_def goal_add_def as_expr_def

lemma ex_solver_fst:
  "fst (solver (ex_env None a) (init ex_func)) = Inr (Solver [ex_constraint])"
  by (simp add: ex_unfold ex_constraint_def)

lemma ex_check: "check (ex_env e a) fs = a"
  by (simp add: ex_env_def)

lemma ex_model: "model (ex_env e a) fs = [(''y'', ex_zero)]"
  by (simp add: ex_env_def)

lemma ex_solver_check_raised:
  "fst (solver_check (ex_env (Some e) a) (init ex_func)) = Inl e"
  by (simp add: ex_unfold)

lemma ex_arguments_body_unannotated:
  "arguments_body (ex_env e a) ex_func_unannotated
     = Inl (UnsupportedError [''missed annotation for'', ''y''])"
  by (simp add: ex_unfold)


lemma ex_prove_raised:
  "fst (prove (ex_env (Some (OtherError c a)) b) (init ex_func)) = Inl (OtherError c a)"
proof -
  have c: "conclusion (init ex_func :: (string, string) Theorem) = None"
    by (simp add: init_def)
  have sc: "solver_check (ex_env (Some (OtherError c a)) b) (init ex_func)
      = (Inl (OtherError c a),
         snd (solver_check (ex_env (Some (OtherError c a)) b) (init ex_func)))"
    using ex_solver_check_raised[of "OtherError c a" b] by (simp add: prod_eq_iff)
  from prove_raised[OF c sc] show ?thesis by simp
qed

lemma holds_as_expr: "holds v (as_expr g) = list_all (holds v) g"
proof (cases g)
  case Nil
  then show ?thesis by (simp add: as_expr_def)
next
  case (Cons f fs)
  then show ?thesis by (cases fs) (simp_all add: as_expr_def)
qed

lemma holds_constraint_of:
  "holds v (constraint_of ctx pre post) =
     (holds v (as_expr pre) \<and> list_all (holds v) (given ctx)
      \<and> \<not> (list_all (holds v) (expected ctx) \<and> holds v (as_expr post)))"
  by (simp add: constraint_of_def holds_as_expr)

lemma ex_unguarded_solver_fst:
  "fst (solver ex_env_unguarded (init ex_func_unguarded))
     = Inr (Solver [ex_constraint_unguarded])"
  by (simp add: ex_unfold ex_constraint_unguarded_def)

text \<open>
  C1, as it is stated, fails in its last part: the example is the model as the solver
  returns it, and that model need not give every argument a value. For
  \<^verbatim>\<open>f(x: int, y: int)\<close> with the body \<^verbatim>\<open>return x / y\<close> and no contract the conclusion is
  \<^verbatim>\<open>FAIL\<close> and the example interprets \<^verbatim>\<open>y\<close> only: the argument \<^verbatim>\<open>x\<close> has no value in it.
\<close>

theorem prove_classifies_counterexample:
  "conclusion (snd (prove ex_env_unguarded (init ex_func_unguarded))) = Some FAIL
   \<and> example (snd (prove ex_env_unguarded (init ex_func_unguarded))) = Some [(''y'', ex_zero)]
   \<and> map fst (the (cached_arguments (snd (prove ex_env_unguarded (init ex_func_unguarded)))))
       = [''x'', ''y'']
   \<and> map_of [(''y'', ex_zero)] ''x'' = None"
proof -
  have c: "conclusion (init ex_func_unguarded :: (string, string) Theorem) = None"
    by (simp add: init_def)
  have s: "solver ex_env_unguarded (init ex_func_unguarded)
      = (Inr (Solver [ex_constraint_unguarded]),
         snd (solver ex_env_unguarded (init ex_func_unguarded)))"
    using ex_unguarded_solver_fst by (simp add: prod_eq_iff)
  have k: "check ex_env_unguarded (assertions (Solver [ex_constraint_unguarded])) = Inr sat"
    by (simp add: ex_env_unguarded_def ex_env_def)
  have m: "model ex_env_unguarded fs = [(''y'', ex_zero)]" for fs
    by (simp add: ex_env_unguarded_def ex_env_def)
  have a: "cached_arguments (snd (solver ex_env_unguarded (init ex_func_unguarded)))
      = Some [(''x'', wrap (z3_Const ''x'' IntSort)), (''y'', wrap (z3_Const ''y'' IntSort))]"
    by (simp add: ex_unfold)
  from prove_answer[OF c s k] a show ?thesis
    by (simp add: m)
qed

text \<open>
  C1, amended. \<^verbatim>\<open>prove\<close> asks the solver only while the conclusion is unset. When the
  solver has been built (so the constraint has) and \<^verbatim>\<open>check\<close> answers, \<^verbatim>\<open>prove\<close> returns
  and the verdict is: \<^verbatim>\<open>OK\<close> with no error and no example for \<^verbatim>\<open>unsat\<close>; \<^verbatim>\<open>SKIP\<close> with the
  error \<^verbatim>\<open>ProveError('cannot validate theorem')\<close> and no example for \<^verbatim>\<open>unknown\<close>, never
  \<^verbatim>\<open>OK\<close>; \<^verbatim>\<open>FAIL\<close> for \<^verbatim>\<open>sat\<close>, with the model that \<^verbatim>\<open>solver.model()\<close> returns as the
  example, as it is.
\<close>

theorem prove_classifies:
  assumes "reachable x t" and "conclusion t = None"
    and "solver x t = (Inr s, t1)" and "check x (assertions s) = Inr answer"
  shows "prove x t =
     (Inr (),
      t1\<lparr>conclusion := Some (case answer of unsat \<Rightarrow> OK | unknown \<Rightarrow> SKIP | sat \<Rightarrow> FAIL),
         error := (case answer of
                     unknown \<Rightarrow> Some (ProveError [''cannot validate theorem''])
                   | _ \<Rightarrow> None),
         example := (case answer of sat \<Rightarrow> Some (model x (assertions s)) | _ \<Rightarrow> None)\<rparr>)"
proof -
  from assms(1) have "slots_ok x t" by (rule reachable_slots_ok)
  from solver_post[OF this assms(3)] assms(2)
  have "error t1 = None" "example t1 = None"
    by (auto simp: slots_ok_def same_verdict_def)
  with prove_answer[OF assms(2-4)] show ?thesis
    by (cases answer) (auto intro!: Theorem.equality)
qed

theorem prove_classifies_witness:
  "prove (ex_env None (Inr sat)) (init ex_func) =
     (Inr (),
      (snd (solver (ex_env None (Inr sat)) (init ex_func)))
        \<lparr>conclusion := Some FAIL, error := None, example := Some [(''y'', ex_zero)]\<rparr>)
   \<and> prove (ex_env None (Inr unsat)) (init ex_func) =
     (Inr (),
      (snd (solver (ex_env None (Inr unsat)) (init ex_func)))
        \<lparr>conclusion := Some OK, error := None, example := None\<rparr>)
   \<and> prove (ex_env None (Inr unknown)) (init ex_func) =
     (Inr (),
      (snd (solver (ex_env None (Inr unknown)) (init ex_func)))
        \<lparr>conclusion := Some SKIP, error := Some (ProveError [''cannot validate theorem'']),
          example := None\<rparr>)"
proof -
  have r: "reachable (ex_env None a) (init ex_func)" for a
    by (rule created)
  have c: "conclusion (init ex_func :: (string, string) Theorem) = None"
    by (simp add: init_def)
  have s: "solver (ex_env None a) (init ex_func)
      = (Inr (Solver [ex_constraint]), snd (solver (ex_env None a) (init ex_func)))" for a
    using ex_solver_fst[of a] by (simp add: prod_eq_iff)
  have k: "check (ex_env None a) (assertions (Solver [ex_constraint])) = a" for a
    by (simp add: ex_check)
  show ?thesis
    using prove_classifies[OF r c s k[of "Inr sat"]] prove_classifies[OF r c s k[of "Inr unsat"]]
      prove_classifies[OF r c s k[of "Inr unknown"]]
    by (simp add: ex_model)
qed

text \<open>
  C2. The solver of every reachable \<^verbatim>\<open>Theorem\<close> holds exactly one formula, the \<^verbatim>\<open>And\<close> of
  the precondition goal, the formulas of \<^verbatim>\<open>given\<close>, and the \<^verbatim>\<open>Not\<close> of the goal made of the
  formulas of \<^verbatim>\<open>expected\<close> and the postcondition goal. Under every valuation it is true
  exactly when the precondition and all of \<^verbatim>\<open>given\<close> are true and not all of \<^verbatim>\<open>expected\<close>
  together with the postcondition are.
\<close>

theorem solver_formula:
  assumes "reachable x t" and "solver x t = (Inr s, t')"
  shows "\<exists>ctx cs pre post.
     cached_context t' = Some ctx \<and> cached_contracts t' = Some cs
     \<and> cs ''pre'' = Some pre \<and> cs ''post'' = Some post
     \<and> assertions s =
        [z3_And ([as_expr pre] @ given ctx
           @ [z3_Not (as_expr (expected ctx @ [as_expr post]))])]
     \<and> (\<forall>v. list_all (holds v) (assertions s) =
          (holds v (as_expr pre) \<and> list_all (holds v) (given ctx)
           \<and> \<not> (list_all (holds v) (expected ctx) \<and> holds v (as_expr post))))"
proof -
  from assms(1) have "slots_ok x t" by (rule reachable_slots_ok)
  from solver_post[OF this assms(2)] have ok: "slots_ok x t'" and cs: "cached_solver t' = Some s"
    by simp_all
  from ok cs obtain c where c: "cached_constraint t' = Some c" "s = Solver [c]"
    by (auto simp: slots_ok_def)
  with ok obtain ctx cs pre post where
    "cached_context t' = Some ctx" "cached_contracts t' = Some cs"
    "cs ''pre'' = Some pre" "cs ''post'' = Some post" "c = constraint_of ctx pre post"
    by (auto simp: slots_ok_def)
  moreover from this c have "assertions s = [constraint_of ctx pre post]" by simp
  ultimately show ?thesis
    using holds_constraint_of[of _ ctx pre post]
    by (intro exI[of _ ctx] exI[of _ cs] exI[of _ pre] exI[of _ post])
      (simp add: constraint_of_def)
qed

theorem solver_formula_witness:
  "fst (solver (ex_env None (Inr sat)) (init ex_func)) = Inr (Solver [ex_constraint])
   \<and> (\<exists>ctx cs pre post.
     cached_context (snd (solver (ex_env None (Inr sat)) (init ex_func))) = Some ctx
     \<and> cached_contracts (snd (solver (ex_env None (Inr sat)) (init ex_func))) = Some cs
     \<and> cs ''pre'' = Some pre \<and> cs ''post'' = Some post
     \<and> assertions (Solver [ex_constraint]) =
        [z3_And ([as_expr pre] @ given ctx
           @ [z3_Not (as_expr (expected ctx @ [as_expr post]))])]
     \<and> (\<forall>v. list_all (holds v) (assertions (Solver [ex_constraint])) =
          (holds v (as_expr pre) \<and> list_all (holds v) (given ctx)
           \<and> \<not> (list_all (holds v) (expected ctx) \<and> holds v (as_expr post)))))"
proof -
  have r: "reachable (ex_env None (Inr sat)) (init ex_func)"
    by (rule created)
  have s: "solver (ex_env None (Inr sat)) (init ex_func)
      = (Inr (Solver [ex_constraint]), snd (solver (ex_env None (Inr sat)) (init ex_func)))"
    using ex_solver_fst[of "Inr sat"] by (simp add: prod_eq_iff)
  show ?thesis
    by (intro conjI) (rule ex_solver_fst, rule solver_formula[OF r s])
qed

text \<open>
  The stages of \<^verbatim>\<open>self.solver.check()\<close> on a new \<^verbatim>\<open>Theorem\<close>, in the order in which they
  run and can raise: the arguments, the statement evaluator on the context seeded with
  them, the contract evaluator, the two keys of the contracts, and the solver.
\<close>

lemma solver_check_new:
  "solver_check x (init f) =
     (case arguments_body x f of
        Inl e \<Rightarrow> (Inl e, init f)
      | Inr a \<Rightarrow>
          let ctx = foldl (\<lambda>ctx (name, val). scope_set ctx name val) make_empty a;
              t1 = (init f)\<lparr>cached_arguments := Some a\<rparr>
          in
          (case eval_stmt x f ctx of
             (Some e, ctx') \<Rightarrow> (Inl e, t1\<lparr>cached_context := Some ctx'\<rparr>)
           | (None, ctx') \<Rightarrow>
               let t2 = t1\<lparr>cached_context := Some ctx'\<rparr> in
               (case eval_contracts x (decorators f) ctx' of
                  Inl e \<Rightarrow> (Inl e, t2)
                | Inr cs \<Rightarrow>
                    let t3 = t2\<lparr>cached_contracts := Some cs\<rparr> in
                    (case cs ''post'' of
                       None \<Rightarrow> (Inl (KeyError [''post'']), t3)
                     | Some post \<Rightarrow>
                         (case cs ''pre'' of
                            None \<Rightarrow> (Inl (KeyError [''pre'']), t3)
                          | Some pre \<Rightarrow>
                              (check x [constraint_of ctx' pre post],
                               t3\<lparr>cached_constraint := Some (constraint_of ctx' pre post),
                                  cached_solver :=
                                    Some (Solver [constraint_of ctx' pre post])\<rparr>))))))"
  by (simp add: solver_check_def solver_def cached_property_def the_context_def arguments_def
      constraint_def constraint_body_def contracts_def init_def Let_def goal_add_def
      constraint_of_def
      split: sum.splits option.splits prod.splits)

text \<open>
  What \<^verbatim>\<open>prove\<close> does with an exception out of \<^verbatim>\<open>self.solver.check()\<close>, on a \<^verbatim>\<open>Theorem\<close>
  whose conclusion is unset: an \<^verbatim>\<open>UnsupportedError\<close> is caught and becomes the conclusion
  \<^verbatim>\<open>SKIP\<close> with that exception as the error; every other exception leaves \<^verbatim>\<open>prove\<close> as it
  is, and no verdict is set.
\<close>

lemma prove_catches_unsupported:
  assumes "reachable x t" and "conclusion t = None"
  shows "(\<forall>a t1. solver_check x t = (Inl (UnsupportedError a), t1) \<longrightarrow>
            prove x t =
              (Inr (), t1\<lparr>conclusion := Some SKIP, error := Some (UnsupportedError a)\<rparr>))
     \<and> (\<forall>e t1. solver_check x t = (Inl e, t1) \<and> (\<forall>a. e \<noteq> UnsupportedError a) \<longrightarrow>
            prove x t = (Inl e, t1) \<and> conclusion t1 = None \<and> error t1 = None
            \<and> example t1 = None)"
proof -
  from assms(1) have ok: "slots_ok x t" by (rule reachable_slots_ok)
  have caught: "prove x t =
      (Inr (), t1\<lparr>conclusion := Some SKIP, error := Some (UnsupportedError a)\<rparr>)"
    if "solver_check x t = (Inl (UnsupportedError a), t1)" for a t1
    using prove_raised[OF assms(2) that] by simp
  have propagated: "prove x t = (Inl e, t1) \<and> conclusion t1 = None \<and> error t1 = None
      \<and> example t1 = None"
    if h: "solver_check x t = (Inl e, t1) \<and> (\<forall>a. e \<noteq> UnsupportedError a)" for e t1
  proof -
    from h have sc: "solver_check x t = (Inl e, t1)" by simp
    from solver_check_post[OF ok sc] assms(2) ok
    have "conclusion t1 = None \<and> error t1 = None \<and> example t1 = None"
      by (auto simp: same_verdict_def slots_ok_def)
    moreover from prove_raised[OF assms(2) sc] h have "prove x t = (Inl e, t1)"
      by (cases e) auto
    ultimately show ?thesis by simp
  qed
  from caught propagated show ?thesis by blast
qed

lemma ex_posonly_solver_fst:
  "fst (solver (ex_env None a) (init ex_func_posonly))
     = Inr (Solver [ex_constraint])"
  by (simp add: ex_unfold ex_constraint_def)

lemma ex_nested_raises:
  "fst (solver_check (ex_env None a) (init ex_func_nested))
     = Inl (AttributeError [''NoneType'', ''lower''])"
  by (simp add: ex_unfold)

text \<open>
  C3. The code does not do what the claim says for every declared parameter:
  \<^verbatim>\<open>arguments\<close> goes through \<^verbatim>\<open>args.args\<close> and \<^verbatim>\<open>args.annotations\<close> only. In
  \<^verbatim>\<open>def f(x, /, y: int)\<close> the positional-only \<^verbatim>\<open>x\<close> is a declared parameter without an
  annotation, and \<^verbatim>\<open>prove\<close> ends in \<^verbatim>\<open>OK\<close>, with no error, where the claim has \<^verbatim>\<open>SKIP\<close>.
  And for the parameter \<^verbatim>\<open>x: List[int][int]\<close>, whose annotation has no sort, the
  \<^verbatim>\<open>AttributeError\<close> of \<^verbatim>\<open>ann2sort\<close> leaves \<^verbatim>\<open>prove\<close> and no verdict is set.
\<close>

theorem prove_unchecked_parameter:
  "(''x'', None) \<in> set (declared_parameters (func_args ex_func_posonly))
   \<and> prove (ex_env None (Inr unsat)) (init ex_func_posonly) =
     (Inr (),
      (snd (solver (ex_env None (Inr unsat)) (init ex_func_posonly)))
        \<lparr>conclusion := Some OK\<rparr>)
   \<and> error (snd (solver (ex_env None (Inr unsat)) (init ex_func_posonly))) = None
   \<and> fst (prove (ex_env None (Inr unsat)) (init ex_func_nested))
       = Inl (AttributeError [''NoneType'', ''lower''])
   \<and> conclusion (snd (prove (ex_env None (Inr unsat)) (init ex_func_nested))) = None"
proof -
  have d: "(''x'', None) \<in> set (declared_parameters (func_args ex_func_posonly))"
    by (simp add: declared_parameters_def ex_func_posonly_def ex_func_def)
  have c: "conclusion (init f :: (string, string) Theorem) = None" for f
    by (simp add: init_def)
  have s: "solver (ex_env None (Inr unsat)) (init ex_func_posonly)
      = (Inr (Solver [ex_constraint]),
         snd (solver (ex_env None (Inr unsat)) (init ex_func_posonly)))"
    using ex_posonly_solver_fst[of "Inr unsat"] by (simp add: prod_eq_iff)
  have k: "check (ex_env None (Inr unsat)) (assertions (Solver [ex_constraint])) = Inr unsat"
    by (simp add: ex_check)
  have e: "error (snd (solver (ex_env None (Inr unsat)) (init ex_func_posonly))) = None"
    by (simp add: ex_unfold)
  have sc: "solver_check (ex_env None (Inr unsat)) (init ex_func_nested)
      = (Inl (AttributeError [''NoneType'', ''lower'']),
         snd (solver_check (ex_env None (Inr unsat)) (init ex_func_nested)))"
    using ex_nested_raises[of "Inr unsat"] by (simp add: prod_eq_iff)
  have r: "reachable (ex_env None (Inr unsat)) (init ex_func_nested)"
    by (rule created)
  from solver_check_post[OF reachable_slots_ok[OF r] sc]
  have n: "conclusion (snd (solver_check (ex_env None (Inr unsat)) (init ex_func_nested)))
      = None"
    by (simp add: same_verdict_def init_def)
  from prove_answer[OF c s k] prove_raised[OF c sc] d e n show ?thesis
    by simp
qed





text \<open>
  C9. \<^verbatim>\<open>reset\<close> turns every \<^verbatim>\<open>Theorem\<close> into the one the constructor makes from the same
  function description: the function is kept, the conclusion, the error, the example and
  the five memoized values are unset.
\<close>

theorem reset_clears:
  "reset t = init (func t) \<and> func (reset t) = func t
   \<and> conclusion (reset t) = None \<and> error (reset t) = None \<and> example (reset t) = None
   \<and> cached_arguments (reset t) = None \<and> cached_context (reset t) = None
   \<and> cached_contracts (reset t) = None \<and> cached_constraint (reset t) = None
   \<and> cached_solver (reset t) = None"
  by (simp add: reset_def init_def)

text \<open>
  C10. An exception that leaves \<^verbatim>\<open>prove\<close> is never an \<^verbatim>\<open>UnsupportedError\<close>, and
  the conclusion, the error and the example are what they were before the call. When the
  conclusion was unset at the call, all three are unset afterwards, so the check at the
  start of the next \<^verbatim>\<open>prove\<close> passes without a \<^verbatim>\<open>reset\<close>.
\<close>

theorem prove_propagates:
  assumes "reachable x t" and "prove x t = (Inl e, t')"
  shows "(\<forall>a. e \<noteq> UnsupportedError a)
     \<and> conclusion t' = conclusion t \<and> error t' = error t \<and> example t' = example t
     \<and> (conclusion t = None \<longrightarrow>
          conclusion t' = None \<and> error t' = None \<and> example t' = None)"
proof (cases "conclusion t = None")
  case False
  with assms(2) show ?thesis by (auto simp: prove_def)
next
  case True
  from assms(1) have ok: "slots_ok x t" by (rule reachable_slots_ok)
  obtain r1 t1 where sc: "solver_check x t = (r1, t1)" by (cases "solver_check x t")
  note p1 = solver_check_post[OF ok sc]
  show ?thesis
  proof (cases r1)
    case (Inl e1)
    from prove_raised[OF True sc[unfolded Inl]] assms(2)
    have "e = e1 \<and> t' = t1 \<and> (\<forall>a. e \<noteq> UnsupportedError a)"
      by (cases e1) auto
    with p1 ok True show ?thesis
      by (auto simp: same_verdict_def slots_ok_def)
  next
    case (Inr res)
    with sc obtain s where s: "solver x t = (Inr s, t1)" "check x (assertions s) = Inr res"
      by (auto simp: solver_check_def split: prod.splits sum.splits)
    from prove_answer[OF True s] assms(2) show ?thesis by simp
  qed
qed

theorem prove_propagates_witness:
  "conclusion (snd (prove (ex_env (Some (OtherError ''ValueError'' [])) (Inr unsat))
       (init ex_func))) = None
   \<and> error (snd (prove (ex_env (Some (OtherError ''ValueError'' [])) (Inr unsat))
       (init ex_func))) = None
   \<and> example (snd (prove (ex_env (Some (OtherError ''ValueError'' [])) (Inr unsat))
       (init ex_func))) = None
   \<and> fst (prove (ex_env (Some (OtherError ''ValueError'' [])) (Inr unsat)) (init ex_func))
       = Inl (OtherError ''ValueError'' [])"
proof -
  have r: "reachable (ex_env (Some (OtherError ''ValueError'' [])) (Inr unsat)) (init ex_func)"
    by (rule created)
  have c: "conclusion (init ex_func :: (string, string) Theorem) = None"
    by (simp add: init_def)
  have p: "prove (ex_env (Some (OtherError ''ValueError'' [])) (Inr unsat)) (init ex_func)
      = (Inl (OtherError ''ValueError'' []),
         snd (prove (ex_env (Some (OtherError ''ValueError'' [])) (Inr unsat)) (init ex_func)))"
    using ex_prove_raised[of "''ValueError''" "[]" "Inr unsat"] by (simp add: prod_eq_iff)
  from prove_propagates[OF r p] c ex_prove_raised[of "''ValueError''" "[]" "Inr unsat"]
  show ?thesis by (simp add: init_def)
qed

end
